theory Spec2Isabelle
  imports Complex_Main "HOL-Library.Log_Nat" "HOL-Library.Multiset"
begin

section \<open>Python values\<close>

text \<open>
  The invoice generator is two Python files: \<^verbatim>\<open>main.py\<close> (the data classes, the pricing
  arithmetic and the PDF layout) and \<^verbatim>\<open>app.py\<close> (the HTTP handler that builds an
  invoice from a JSON payload).  Python is dynamically typed, so the payload and the
  attributes of an \<^verbatim>\<open>Invoice\<close> are values of \<open>pyval\<close>; the pricing arithmetic works on
  numbers, \<open>pynum\<close>: an unbounded \<^verbatim>\<open>int\<close> or a \<^verbatim>\<open>float\<close>.  What the arithmetic
  operators do with operands that are not numbers is outside the model.

  Strings are byte strings holding the UTF-8 encoding of the Python text.

  Every exception the modelled code can raise is a value of \<open>py_error\<close>, and a
  computation that may raise returns \<open>py_error + 'a\<close>.
\<close>

datatype py_error = TypeError | ValueError | KeyError | AttributeError | OverflowError

datatype pyfloat = Finite real | PosInf | NegInf | NaN

datatype pynum = PyInt int | PyFloat pyfloat

datatype pyval =
    PNone
  | PBool bool
  | PNum pynum
  | PStr string
  | PList "pyval list"
  | PDict "(string \<times> pyval) list"

definition and_then :: "'e + 'a \<Rightarrow> ('a \<Rightarrow> 'e + 'b) \<Rightarrow> 'e + 'b" where
  "and_then r f = (case r of Inl e \<Rightarrow> Inl e | Inr v \<Rightarrow> f v)"

subsection \<open>Binary64 arithmetic\<close>

text \<open>
  A Python \<^verbatim>\<open>float\<close> is an IEEE 754 binary64 number.  \<open>Finite x\<close> carries the exact
  real value; the results of the arithmetic are rounded to the nearest representable
  value, ties to the even significand (\<open>round_double\<close>): 53 significant bits, the least
  exponent of a normal number \<open>- 1022\<close>, the subnormal spacing \<open>2 powi (- 1074)\<close>,
  overflow to infinity from \<open>2 ^ 1024\<close>.  The negative zero is identified with zero.
\<close>

definition round_half_even :: "real \<Rightarrow> int" where
  "round_half_even x =
     (let f = \<lfloor>x\<rfloor>; d = x - of_int f
      in if d < 1 / 2 then f else if 1 / 2 < d then f + 1 else if even f then f else f + 1)"

definition ilog2 :: "real \<Rightarrow> int" where
  \<comment> \<open>For \<open>0 < x\<close>: the \<open>e\<close> with \<open>2 powi e \<le> x < 2 powi (e + 1)\<close>.\<close>
  "ilog2 x =
     (if 1 \<le> x then int (floorlog 2 (nat \<lfloor>x\<rfloor>)) - 1
      else - int (floorlog 2 (nat (\<lceil>1 / x\<rceil> - 1))))"

definition round_double :: "real \<Rightarrow> pyfloat" where
  "round_double x =
     (if x = 0 then Finite 0
      else
        let e = max (ilog2 \<bar>x\<bar>) (- 1022);
            q = 2 powi (e - 52);
            v = of_int (round_half_even (x / q)) * q
        in if 2 ^ 1024 \<le> v then PosInf else if v \<le> - (2 ^ 1024) then NegInf else Finite v)"

fun fneg :: "pyfloat \<Rightarrow> pyfloat" where
  "fneg (Finite a) = Finite (- a)"
| "fneg PosInf = NegInf"
| "fneg NegInf = PosInf"
| "fneg NaN = NaN"

fun fadd :: "pyfloat \<Rightarrow> pyfloat \<Rightarrow> pyfloat" where
  "fadd (Finite a) (Finite b) = round_double (a + b)"
| "fadd NaN y = NaN"
| "fadd x NaN = NaN"
| "fadd PosInf NegInf = NaN"
| "fadd NegInf PosInf = NaN"
| "fadd PosInf y = PosInf"
| "fadd NegInf y = NegInf"
| "fadd (Finite a) y = y"

definition fsub :: "pyfloat \<Rightarrow> pyfloat \<Rightarrow> pyfloat" where
  "fsub x y = fadd x (fneg y)"

fun fsign :: "pyfloat \<Rightarrow> int" where
  "fsign (Finite a) = (if a < 0 then - 1 else if a = 0 then 0 else 1)"
| "fsign PosInf = 1"
| "fsign NegInf = - 1"
| "fsign NaN = 0"

fun fmul :: "pyfloat \<Rightarrow> pyfloat \<Rightarrow> pyfloat" where
  "fmul (Finite a) (Finite b) = round_double (a * b)"
| "fmul NaN y = NaN"
| "fmul x NaN = NaN"
| "fmul x y =
     (let s = fsign x * fsign y in if s = 0 then NaN else if 0 < s then PosInf else NegInf)"

text \<open>
  The values a \<^verbatim>\<open>float\<close> can hold: the infinities, the NaN, and the reals that the
  rounding leaves as they are.
\<close>

definition is_double :: "pyfloat \<Rightarrow> bool" where
  "is_double x = (case x of Finite v \<Rightarrow> round_double v = Finite v | _ \<Rightarrow> True)"

subsection \<open>Python's numeric operators\<close>

text \<open>
  \<^verbatim>\<open>int\<close> with \<^verbatim>\<open>int\<close> is exact.  When a \<^verbatim>\<open>float\<close> takes part, an \<^verbatim>\<open>int\<close> operand is
  converted first; the conversion rounds, and raises \<^verbatim>\<open>OverflowError\<close> for an \<^verbatim>\<open>int\<close>
  beyond the range of a \<^verbatim>\<open>float\<close>.  Float arithmetic itself never raises.
\<close>

definition float_of_int :: "int \<Rightarrow> py_error + pyfloat" where
  "float_of_int n =
     (case round_double (of_int n) of Finite v \<Rightarrow> Inr (Finite v) | _ \<Rightarrow> Inl OverflowError)"

fun to_float :: "pynum \<Rightarrow> py_error + pyfloat" where
  "to_float (PyInt n) = float_of_int n"
| "to_float (PyFloat x) = Inr x"

definition float_op ::
  "(pyfloat \<Rightarrow> pyfloat \<Rightarrow> pyfloat) \<Rightarrow> pynum \<Rightarrow> pynum \<Rightarrow> py_error + pynum" where
  "float_op f x y =
     and_then (to_float x) (\<lambda>a. and_then (to_float y) (\<lambda>b. Inr (PyFloat (f a b))))"

fun py_add :: "pynum \<Rightarrow> pynum \<Rightarrow> py_error + pynum" where
  "py_add (PyInt a) (PyInt b) = Inr (PyInt (a + b))"
| "py_add x y = float_op fadd x y"

fun py_sub :: "pynum \<Rightarrow> pynum \<Rightarrow> py_error + pynum" where
  "py_sub (PyInt a) (PyInt b) = Inr (PyInt (a - b))"
| "py_sub x y = float_op fsub x y"

fun py_mul :: "pynum \<Rightarrow> pynum \<Rightarrow> py_error + pynum" where
  "py_mul (PyInt a) (PyInt b) = Inr (PyInt (a * b))"
| "py_mul x y = float_op fmul x y"

text \<open>
  The built-in \<^verbatim>\<open>sum\<close>: start from the \<^verbatim>\<open>int\<close> 0 and add the elements from left to
  right.  (CPython from 3.12 on carries a compensation term through a sum of floats,
  which can change the last bit of a sum of three or more; the sums evaluated
  below are the same with and without it.)
\<close>

fun sum_from :: "pynum \<Rightarrow> pynum list \<Rightarrow> py_error + pynum" where
  "sum_from acc [] = Inr acc"
| "sum_from acc (x # xs) = and_then (py_add acc x) (\<lambda>acc'. sum_from acc' xs)"

definition py_sum :: "pynum list \<Rightarrow> py_error + pynum" where
  "py_sum xs = sum_from (PyInt 0) xs"

text \<open>\<^verbatim>\<open>xs or []\<close> for an optional list: \<^verbatim>\<open>None\<close> and the empty list are both falsy.\<close>

definition or_empty :: "'a list option \<Rightarrow> 'a list" where
  "or_empty xs = (case xs of None \<Rightarrow> [] | Some ys \<Rightarrow> ys)"

section \<open>The invoice model (main.py)\<close>

record client =
  client_name :: pyval
  email :: pyval
  address :: pyval
  contact :: pyval

text \<open>
  \<^verbatim>\<open>Item\<close> is a dataclass; \<^verbatim>\<open>charge_types\<close> and \<^verbatim>\<open>charge_amounts\<close> default to \<^verbatim>\<open>None\<close>.
\<close>

record item =
  name :: pyval
  qty :: pynum
  price :: pynum
  charge_types :: "pyval list option"
  charge_amounts :: "pynum list option"

definition price_cal :: "item \<Rightarrow> py_error + pynum" where
  "price_cal self =
     and_then (py_mul (qty self) (price self)) (\<lambda>base.
     and_then (py_sum (or_empty (charge_amounts self))) (\<lambda>extras.
     py_add base extras))"

text \<open>
  An \<^verbatim>\<open>Invoice\<close>.  The creation time and the object identity the invoice number is
  derived from are inputs of the constructor.  Python does not enforce the annotation
  \<^verbatim>\<open>tax_rate: float\<close>: the attributes hold whatever the setters are given.
\<close>

record invoice =
  client :: client
  items :: "item list"
  invoice_date :: nat
  invoice_number :: string
  tax_rate :: pyval
  discount :: pyval
  discount_type :: pyval

text \<open>The decimal digits of a natural number, as \<^verbatim>\<open>str\<close> prints them.\<close>

definition digit_char :: "nat \<Rightarrow> char" where
  "digit_char d = ''0123456789'' ! d"

fun digits :: "nat \<Rightarrow> string" where
  "digits n =
     (if n < 10 then [digit_char n] else digits (n div 10) @ [digit_char (n mod 10)])"

declare digits.simps [simp del]

definition new_invoice :: "client \<Rightarrow> nat \<Rightarrow> nat \<Rightarrow> invoice" where
  "new_invoice c now ident =
     \<lparr>client = c, items = [], invoice_date = now,
      invoice_number = ''INV-'' @ digits ident,
      tax_rate = PNum (PyFloat (Finite 0)),
      discount = PNum (PyFloat (Finite 0)),
      discount_type = PStr ''flat''\<rparr>"

definition add_item :: "invoice \<Rightarrow> item \<Rightarrow> py_error + invoice" where
  "add_item self it = Inr (self\<lparr>items := items self @ [it]\<rparr>)"

definition set_tax_rate :: "invoice \<Rightarrow> pyval \<Rightarrow> py_error + invoice" where
  "set_tax_rate self rate = Inr (self\<lparr>tax_rate := rate\<rparr>)"

definition set_discount :: "invoice \<Rightarrow> pyval \<Rightarrow> pyval \<Rightarrow> py_error + invoice" where
  "set_discount self amount dtype = Inr (self\<lparr>discount := amount, discount_type := dtype\<rparr>)"

text \<open>
  \<^verbatim>\<open>sum(item.price_cal() for item in items)\<close>: the generator computes each line total
  when the sum asks for it.
\<close>

fun subtotal_from :: "pynum \<Rightarrow> item list \<Rightarrow> py_error + pynum" where
  "subtotal_from acc [] = Inr acc"
| "subtotal_from acc (it # its) =
     and_then (price_cal it) (\<lambda>t.
     and_then (py_add acc t) (\<lambda>acc'. subtotal_from acc' its))"

definition calculate_subtotal :: "item list \<Rightarrow> py_error + pynum" where
  "calculate_subtotal its = subtotal_from (PyInt 0) its"

definition apply_discount :: "pynum \<Rightarrow> pynum \<Rightarrow> pyval \<Rightarrow> py_error + pynum" where
  "apply_discount subtotal disc dtype =
     (if dtype = PStr ''percentage''
      then and_then (py_sub (PyInt 1) disc) (\<lambda>k. py_mul subtotal k)
      else py_sub subtotal disc)"

definition apply_tax :: "pynum \<Rightarrow> pynum \<Rightarrow> py_error + pynum" where
  "apply_tax amount rate = and_then (py_add (PyInt 1) rate) (\<lambda>k. py_mul amount k)"

text \<open>
  The values Python counts as numbers: \<^verbatim>\<open>int\<close>, \<^verbatim>\<open>float\<close> and \<^verbatim>\<open>bool\<close> (a subclass
  of \<^verbatim>\<open>int\<close>).
\<close>

fun is_numeric :: "pyval \<Rightarrow> bool" where
  "is_numeric (PNum n) = True"
| "is_numeric (PBool b) = True"
| "is_numeric v = False"

subsection \<open>The totals of an invoice\<close>

text \<open>
  \<^verbatim>\<open>generate_pdf\<close> computes the totals from the invoice's attributes.  The discount
  and the tax rate are only ever the right operand of \<^verbatim>\<open>-\<close> and \<^verbatim>\<open>+\<close> with a number
  on the left, where every value that is not a number raises \<^verbatim>\<open>TypeError\<close> (a \<^verbatim>\<open>bool\<close>
  counts as the \<^verbatim>\<open>int\<close> 0 or 1).
\<close>

fun as_num :: "pyval \<Rightarrow> py_error + pynum" where
  "as_num (PNum n) = Inr n"
| "as_num (PBool b) = Inr (PyInt (if b then 1 else 0))"
| "as_num v = Inl TypeError"

definition invoice_totals :: "invoice \<Rightarrow> py_error + (pynum \<times> pynum \<times> pynum)" where
  \<comment> \<open>\<open>(subtotal, discounted, total)\<close>\<close>
  "invoice_totals iv =
     and_then (calculate_subtotal (items iv)) (\<lambda>subtotal.
     and_then (as_num (discount iv)) (\<lambda>d.
     and_then (apply_discount subtotal d (discount_type iv)) (\<lambda>discounted.
     and_then (as_num (tax_rate iv)) (\<lambda>r.
     and_then (apply_tax discounted r) (\<lambda>total.
     Inr (subtotal, discounted, total))))))"

subsection \<open>Formatting money\<close>

text \<open>
  \<^verbatim>\<open>f"{amount:,.2f}"\<close>: the amount as a \<^verbatim>\<open>float\<close>, rounded to two decimals (the exact
  value, ties to even), the integer part in groups of three digits.  Python prints the
  negative zero as \<^verbatim>\<open>-0.00\<close>; the model has one zero, printed \<^verbatim>\<open>0.00\<close>.
\<close>

fun group3 :: "string \<Rightarrow> string" where
  "group3 s =
     (if length s \<le> 3 then s
      else group3 (take (length s - 3) s) @ '','' @ drop (length s - 3) s)"

declare group3.simps [simp del]

definition format_2f :: "pyfloat \<Rightarrow> string" where
  "format_2f x =
     (case x of
        Finite r \<Rightarrow>
          (let n = nat (round_half_even (\<bar>r\<bar> * 100))
           in (if r < 0 then ''-'' else [])
              @ group3 (digits (n div 100)) @ ''.''
              @ [digit_char (n mod 100 div 10), digit_char (n mod 10)])
      | PosInf \<Rightarrow> ''inf''
      | NegInf \<Rightarrow> ''-inf''
      | NaN \<Rightarrow> ''nan'')"

definition format_comma_2f :: "pynum \<Rightarrow> py_error + string" where
  "format_comma_2f amount = and_then (to_float amount) (\<lambda>x. Inr (format_2f x))"

text \<open>
  The prefix of the \<^verbatim>\<open>INR\<close> branch, as the string literal of \<^verbatim>\<open>main.py\<close> line 74
  has it: the seven bytes \<^verbatim>\<open>C3 A2 E2 80 9A C2 B9\<close>, the three characters U+00E2, U+201A
  and U+00B9.  The rupee sign is the one character U+20B9, the bytes \<^verbatim>\<open>E2 82 B9\<close>.
\<close>

definition inr_prefix :: string where
  "inr_prefix = [CHR 0xC3, CHR 0xA2, CHR 0xE2, CHR 0x80, CHR 0x9A, CHR 0xC2, CHR 0xB9]"

definition rupee_sign :: string where
  "rupee_sign = [CHR 0xE2, CHR 0x82, CHR 0xB9]"

definition format_currency :: "pyval \<Rightarrow> pynum \<Rightarrow> py_error + string" where
  "format_currency currency amount =
     (if currency = PStr ''INR''
      then and_then (format_comma_2f amount) (\<lambda>s. Inr (inr_prefix @ s))
      else and_then (format_comma_2f amount) (\<lambda>s. Inr (''$'' @ s)))"

subsection \<open>The line-item table\<close>

text \<open>
  A \<^verbatim>\<open>Paragraph\<close> of the layout library is kept as its text and the name of its style;
  the library is outside the model, and constructing a paragraph is taken not to raise.
  \<^verbatim>\<open>str\<close> of a \<^verbatim>\<open>float\<close> (its shortest decimal representation) is a parameter,
  \<open>float_repr\<close>.
\<close>

datatype flowable = Paragraph pyval string

definition table_headers :: "flowable list" where
  "table_headers =
     [Paragraph (PStr ''<b>Item Name</b>'') ''tHead'',
      Paragraph (PStr ''<b>Description</b>'') ''tHead'',
      Paragraph (PStr ''<b>Price</b>'') ''tHead'',
      Paragraph (PStr ''<b>Quantity</b>'') ''tHead'',
      Paragraph (PStr ''<b>Total</b>'') ''tHead'']"

definition blank_row :: "flowable list" where
  "blank_row = replicate 5 (Paragraph (PStr []) ''BillNorm'')"

fun str_items :: "pyval list \<Rightarrow> py_error + string list" where
  "str_items [] = Inr []"
| "str_items (PStr s # xs) = and_then (str_items xs) (\<lambda>ss. Inr (s # ss))"
| "str_items (v # xs) = Inl TypeError"

fun join_strs :: "string \<Rightarrow> string list \<Rightarrow> string" where
  "join_strs sep [] = []"
| "join_strs sep [s] = s"
| "join_strs sep (s # t # ss) = s @ sep @ join_strs sep (t # ss)"

definition py_join :: "string \<Rightarrow> pyval list \<Rightarrow> py_error + string" where
  "py_join sep xs = and_then (str_items xs) (\<lambda>ss. Inr (join_strs sep ss))"

fun py_str :: "(pyfloat \<Rightarrow> string) \<Rightarrow> pynum \<Rightarrow> string" where
  "py_str float_repr (PyInt n) = (if n < 0 then ''-'' @ digits (nat (- n)) else digits (nat n))"
| "py_str float_repr (PyFloat x) = float_repr x"

definition item_row :: "(pyfloat \<Rightarrow> string) \<Rightarrow> pyval \<Rightarrow> item \<Rightarrow> py_error + flowable list" where
  "item_row float_repr currency it =
     and_then (if or_empty (charge_types it) \<noteq> []
               then py_join '', '' (or_empty (charge_types it)) else Inr ''-'') (\<lambda>desc.
     and_then (format_currency currency (price it)) (\<lambda>p.
     and_then (price_cal it) (\<lambda>t.
     and_then (format_currency currency t) (\<lambda>tt.
     Inr [Paragraph (name it) ''tabval'',
          Paragraph (PStr desc) ''tabval'',
          Paragraph (PStr p) ''tabval'',
          Paragraph (PStr (py_str float_repr (qty it))) ''tabval'',
          Paragraph (PStr tt) ''tabval'']))))"

text \<open>The \<^verbatim>\<open>for\<close> loop appends one row per item, the \<^verbatim>\<open>while\<close> loop pads.\<close>

fun append_rows ::
  "(pyfloat \<Rightarrow> string) \<Rightarrow> pyval \<Rightarrow> flowable list list \<Rightarrow> item list
     \<Rightarrow> py_error + flowable list list" where
  "append_rows float_repr currency rows [] = Inr rows"
| "append_rows float_repr currency rows (it # its) =
     and_then (item_row float_repr currency it) (\<lambda>row.
     append_rows float_repr currency (rows @ [row]) its)"

function pad_rows :: "flowable list list \<Rightarrow> flowable list list" where
  "pad_rows rows = (if length rows < 7 then pad_rows (rows @ [blank_row]) else rows)"
  by pat_completeness auto
termination
  by (relation "measure (\<lambda>rows. 7 - length rows)") auto

declare pad_rows.simps [simp del]

definition item_data ::
  "(pyfloat \<Rightarrow> string) \<Rightarrow> pyval \<Rightarrow> invoice \<Rightarrow> py_error + flowable list list" where
  "item_data float_repr currency iv =
     and_then (append_rows float_repr currency [table_headers] (items iv)) (\<lambda>rows.
     Inr (pad_rows rows))"

section \<open>The HTTP handler (app.py)\<close>

text \<open>
  The payload is the value \<^verbatim>\<open>json.loads\<close> returns.  A \<open>PDict\<close> lists the items of a
  dictionary.  The text grammar of \<^verbatim>\<open>int\<close> and \<^verbatim>\<open>float\<close> on a string is a parameter
  (\<open>int_of_str\<close>, \<open>float_of_str\<close>: \<open>None\<close> where Python raises \<^verbatim>\<open>ValueError\<close>).
\<close>

definition code_points :: "string \<Rightarrow> nat" where
  \<comment> \<open>The characters of a UTF-8 string: the bytes that are not continuation bytes.\<close>
  "code_points s = length (filter (\<lambda>c. \<not> (128 \<le> (of_char c :: nat) \<and> (of_char c :: nat) < 192)) s)"

fun py_len :: "pyval \<Rightarrow> py_error + nat" where
  "py_len (PStr s) = Inr (code_points s)"
| "py_len (PList xs) = Inr (length xs)"
| "py_len (PDict kvs) = Inr (length (remdups (map fst kvs)))"
| "py_len v = Inl TypeError"

fun dict_get :: "pyval \<Rightarrow> string \<Rightarrow> pyval \<Rightarrow> py_error + pyval" where
  "dict_get (PDict kvs) k d = Inr (case map_of kvs k of None \<Rightarrow> d | Some v \<Rightarrow> v)"
| "dict_get v k d = Inl AttributeError"

fun subscript :: "pyval \<Rightarrow> string \<Rightarrow> py_error + pyval" where
  "subscript (PDict kvs) k = (case map_of kvs k of None \<Rightarrow> Inl KeyError | Some v \<Rightarrow> Inr v)"
| "subscript v k = Inl TypeError"

fun iadd_list :: "pyval \<Rightarrow> pyval list \<Rightarrow> py_error + pyval list" where
  "iadd_list (PList xs) ys = Inr (xs @ ys)"
| "iadd_list v ys = Inl TypeError"

fun py_int :: "(string \<Rightarrow> int option) \<Rightarrow> pyval \<Rightarrow> py_error + int" where
  "py_int int_of_str (PBool b) = Inr (if b then 1 else 0)"
| "py_int int_of_str (PNum (PyInt n)) = Inr n"
| "py_int int_of_str (PNum (PyFloat (Finite r))) = Inr (if 0 \<le> r then \<lfloor>r\<rfloor> else \<lceil>r\<rceil>)"
| "py_int int_of_str (PNum (PyFloat NaN)) = Inl ValueError"
| "py_int int_of_str (PNum (PyFloat x)) = Inl OverflowError"
| "py_int int_of_str (PStr s) = (case int_of_str s of None \<Rightarrow> Inl ValueError | Some n \<Rightarrow> Inr n)"
| "py_int int_of_str v = Inl TypeError"

fun py_float :: "(string \<Rightarrow> pyfloat option) \<Rightarrow> pyval \<Rightarrow> py_error + pyfloat" where
  "py_float float_of_str (PBool b) = Inr (Finite (if b then 1 else 0))"
| "py_float float_of_str (PNum n) = to_float n"
| "py_float float_of_str (PStr s) =
     (case float_of_str s of None \<Rightarrow> Inl ValueError | Some x \<Rightarrow> Inr x)"
| "py_float float_of_str v = Inl TypeError"

fun float_each :: "(string \<Rightarrow> pyfloat option) \<Rightarrow> pyval list \<Rightarrow> py_error + pynum list" where
  "float_each float_of_str [] = Inr []"
| "float_each float_of_str (a # as) =
     and_then (py_float float_of_str a) (\<lambda>x.
     and_then (float_each float_of_str as) (\<lambda>xs. Inr (PyFloat x # xs)))"

text \<open>The body of the loop over \<^verbatim>\<open>data['items']\<close>, up to the \<^verbatim>\<open>Item\<close> it constructs.\<close>

definition make_item ::
  "(string \<Rightarrow> int option) \<Rightarrow> (string \<Rightarrow> pyfloat option) \<Rightarrow> pyval \<Rightarrow> py_error + item" where
  "make_item int_of_str float_of_str item_json =
     and_then (dict_get item_json ''charge_types'' (PList [])) (\<lambda>types0.
     and_then (dict_get item_json ''charge_amounts'' (PList [])) (\<lambda>amounts0.
     and_then (py_len types0) (\<lambda>len_types.
     and_then (py_len amounts0) (\<lambda>len_amounts.
     let max_len = max len_types len_amounts in
     and_then (iadd_list types0 (replicate (max_len - len_types) (PStr []))) (\<lambda>types.
     and_then (iadd_list amounts0
                 (replicate (max_len - len_amounts) (PNum (PyFloat (Finite 0))))) (\<lambda>amounts.
     and_then (subscript item_json ''name'') (\<lambda>n.
     and_then (subscript item_json ''quantity'') (\<lambda>q0.
     and_then (py_int int_of_str q0) (\<lambda>q.
     and_then (subscript item_json ''price'') (\<lambda>p0.
     and_then (py_float float_of_str p0) (\<lambda>p.
     and_then (float_each float_of_str amounts) (\<lambda>floats.
     Inr \<lparr>name = n, qty = PyInt q, price = PyFloat p,
          charge_types = Some types, charge_amounts = Some floats\<rparr>))))))))))))"

fun add_items ::
  "(string \<Rightarrow> int option) \<Rightarrow> (string \<Rightarrow> pyfloat option) \<Rightarrow> invoice \<Rightarrow> pyval list
     \<Rightarrow> py_error + invoice" where
  "add_items int_of_str float_of_str iv [] = Inr iv"
| "add_items int_of_str float_of_str iv (item_json # rest) =
     and_then (make_item int_of_str float_of_str item_json) (\<lambda>it.
     and_then (add_item iv it) (\<lambda>iv'.
     add_items int_of_str float_of_str iv' rest))"

section \<open>Properties\<close>

lemma and_then_Inr [simp]: "and_then (Inr v) f = f v"
  by (simp add: and_then_def)

lemma and_then_Inl [simp]: "and_then (Inl e) f = Inl e"
  by (simp add: and_then_def)

subsection \<open>Rounding\<close>

lemma real_pow2_le: "(2::nat) ^ k \<le> n \<Longrightarrow> (2::real) ^ k \<le> real n"
  by (metis of_nat_le_iff of_nat_numeral of_nat_power)

lemma real_less_pow2: "n < (2::nat) ^ k \<Longrightarrow> real n + 1 \<le> (2::real) ^ k"
proof -
  assume "n < (2::nat) ^ k"
  then have "n + 1 \<le> 2 ^ k" by simp
  then have "real (n + 1) \<le> real (2 ^ k)" using of_nat_le_iff by blast
  then show ?thesis by simp
qed

lemma ilog2_bounds:
  assumes "0 < x"
  shows "2 powi (ilog2 x) \<le> x \<and> x < 2 powi (ilog2 x + 1)"
proof (cases "1 \<le> x")
  case True
  define n where "n = nat \<lfloor>x\<rfloor>"
  define L where "L = floorlog 2 n"
  have n1: "0 < n" using True by (simp add: n_def)
  have nx: "real n \<le> x" "x < real n + 1" using True by (simp_all add: n_def)
  have b: "2 ^ (L - 1) \<le> n" "n < 2 ^ L"
    using floorlog_bounds [of n 2] n1 by (simp_all add: L_def)
  have L1: "1 \<le> L" using b n1 by (cases L) auto
  have il: "ilog2 x = int (L - 1)" using True L1 by (simp add: ilog2_def n_def L_def)
  have "2 powi (ilog2 x) = (2::real) ^ (L - 1)" by (simp only: il power_int_of_nat)
  also have "\<dots> \<le> real n" using b(1) by (rule real_pow2_le)
  also have "\<dots> \<le> x" by (rule nx(1))
  finally have lo: "2 powi (ilog2 x) \<le> x" .
  have "ilog2 x + 1 = int L" using il L1 by simp
  then have "2 powi (ilog2 x + 1) = (2::real) ^ L" by (simp only: power_int_of_nat)
  moreover have "x < 2 ^ L" using nx(2) real_less_pow2 [OF b(2)] by linarith
  ultimately have "x < 2 powi (ilog2 x + 1)" by simp
  with lo show ?thesis by simp
next
  case False
  define c where "c = \<lceil>1 / x\<rceil>"
  define m where "m = nat (c - 1)"
  define J where "J = floorlog 2 m"
  have x1: "1 < 1 / x" using False assms by simp
  have c2: "2 \<le> c" using x1 unfolding c_def by linarith
  have cx: "1 / x \<le> of_int c" "of_int c - 1 < 1 / x" unfolding c_def by linarith+
  have m1: "0 < m" "int m = c - 1" using c2 by (simp_all add: m_def)
  have b: "2 ^ (J - 1) \<le> m" "m < 2 ^ J"
    using floorlog_bounds [of m 2] m1 by (simp_all add: J_def)
  have J1: "1 \<le> J" using b m1 by (cases J) auto
  have il: "ilog2 x = - int J" using False by (simp add: ilog2_def c_def m_def J_def)
  have rm: "real m = of_int c - 1" using m1(2) by (metis of_int_1 of_int_diff of_int_of_nat_eq)
  have "1 / x \<le> 2 ^ J" using cx(1) rm real_less_pow2 [OF b(2)] by linarith
  then have "1 / 2 ^ J \<le> x" using assms by (simp add: field_simps)
  moreover have "2 powi (ilog2 x) = 1 / (2::real) ^ J"
    by (simp only: il power_int_minus_divide power_int_of_nat)
  ultimately have lo: "2 powi (ilog2 x) \<le> x" by simp
  have "2 ^ (J - 1) < 1 / x" using cx(2) rm real_pow2_le [OF b(1)] by linarith
  then have "x < 1 / 2 ^ (J - 1)" using assms by (simp add: field_simps)
  moreover have "ilog2 x + 1 = - int (J - 1)" using il J1 by simp
  then have "2 powi (ilog2 x + 1) = 1 / (2::real) ^ (J - 1)"
    by (simp only: power_int_minus_divide power_int_of_nat)
  ultimately have "x < 2 powi (ilog2 x + 1)" by simp
  with lo show ?thesis by simp
qed

lemma ilog2_le:
  assumes "0 < x" "x < 2 powi (i + 1)"
  shows "ilog2 x \<le> i"
proof (rule ccontr)
  assume "\<not> ilog2 x \<le> i"
  then have "i + 1 \<le> ilog2 x" by simp
  then have "(2::real) powi (i + 1) \<le> 2 powi (ilog2 x)"
    by (intro power_int_increasing) simp_all
  also have "\<dots> \<le> x" using ilog2_bounds [OF assms(1)] by simp
  finally show False using assms(2) by simp
qed

lemma round_half_even_of_int [simp]: "round_half_even (of_int m) = m"
  by (simp add: round_half_even_def)

lemma round_double_exact_strict:
  assumes x: "x = of_int k * 2 powi j" and k: "\<bar>k\<bar> < 2 ^ 53" and j: "- 1074 \<le> j"
    and r: "\<bar>x\<bar> < 2 ^ 1024"
  shows "round_double x = Finite x"
proof (cases "x = 0")
  case True
  then show ?thesis by (simp add: round_double_def)
next
  case False
  define e where "e = max (ilog2 \<bar>x\<bar>) (- 1022)"
  define q :: real where "q = 2 powi (e - 52)"
  have xpos: "0 < \<bar>x\<bar>" using False by simp
  have "\<bar>x\<bar> = of_int \<bar>k\<bar> * 2 powi j" by (simp add: x abs_mult)
  also have "\<dots> < 2 ^ 53 * 2 powi j"
  proof -
    have "(of_int \<bar>k\<bar> :: real) < of_int (2 ^ 53)" using k by (simp only: of_int_less_iff)
    then have "(of_int \<bar>k\<bar> :: real) < 2 ^ 53" by simp
    then show ?thesis by (simp add: mult_strict_right_mono)
  qed
  also have "\<dots> = 2 powi (j + 52 + 1)"
    by (simp add: power_int_add)
  finally have "ilog2 \<bar>x\<bar> \<le> j + 52" using ilog2_le [OF xpos] by blast
  then have ej: "e - 52 \<le> j" using j by (simp add: e_def)
  define d where "d = nat (j - (e - 52))"
  have "(2::real) powi j = 2 powi ((e - 52) + int d)" using ej by (simp add: d_def)
  also have "\<dots> = q * 2 ^ d" by (simp add: power_int_add q_def)
  finally have pj: "(2::real) powi j = q * 2 ^ d" .
  have qpos: "0 < q" by (simp add: q_def)
  have "x / q = of_int (k * 2 ^ d)" using qpos by (simp add: x pj)
  then have "round_half_even (x / q) = k * 2 ^ d" by (simp only: round_half_even_of_int)
  then have v: "of_int (round_half_even (x / q)) * q = x" by (simp add: x pj)
  have "\<not> 2 ^ 1024 \<le> x" "\<not> x \<le> - (2 ^ 1024)" using r by linarith+
  then show ?thesis
    using False v by (simp add: round_double_def Let_def e_def [symmetric] q_def [symmetric])
qed

lemma round_double_exact:
  assumes x: "x = of_int k * 2 powi j" and k: "\<bar>k\<bar> \<le> 2 ^ 53" and j: "- 1074 \<le> j"
    and r: "\<bar>x\<bar> < 2 ^ 1024"
  shows "round_double x = Finite x"
proof (cases "\<bar>k\<bar> < 2 ^ 53")
  case True
  show ?thesis by (rule round_double_exact_strict [OF x True j r])
next
  case False
  then have "\<bar>k\<bar> = 2 ^ 53" using k by simp
  then have "k = 2 * 2 ^ 52 \<or> k = 2 * (- (2 ^ 52))" by auto
  then obtain k' where k': "k = 2 * k'" "\<bar>k'\<bar> < 2 ^ 53" by auto
  have "x = of_int k' * 2 powi (j + 1)" by (simp add: x k'(1) power_int_add)
  then show ?thesis using k'(2) j r by (intro round_double_exact_strict [of x k' "j + 1"]) simp_all
qed

lemma round_half_even_abs_le:
  assumes "\<bar>y\<bar> \<le> of_int B"
  shows "\<bar>round_half_even y\<bar> \<le> B"
proof -
  have lo: "- B \<le> \<lfloor>y\<rfloor>" using assms by (simp add: le_floor_iff abs_le_iff)
  have hi: "\<lfloor>y\<rfloor> \<le> B" using assms by (simp add: floor_le_iff abs_le_iff)
  show ?thesis
  proof (cases "\<lfloor>y\<rfloor> = B")
    case True
    then have "y = of_int \<lfloor>y\<rfloor>" using assms by (smt (verit) of_int_floor_le abs_le_iff)
    then have "round_half_even y = \<lfloor>y\<rfloor>" by (metis round_half_even_of_int)
    then show ?thesis using lo hi by simp
  next
    case False
    then have "\<lfloor>y\<rfloor> + 1 \<le> B" using hi by simp
    moreover have "round_half_even y = \<lfloor>y\<rfloor> \<or> round_half_even y = \<lfloor>y\<rfloor> + 1"
      by (simp add: round_half_even_def Let_def)
    ultimately show ?thesis using lo by auto
  qed
qed

lemma round_double_idem:
  assumes "round_double x = Finite v"
  shows "round_double v = Finite v"
proof (cases "x = 0")
  case True
  then show ?thesis using assms by (auto simp: round_double_def)
next
  case False
  define e where "e = max (ilog2 \<bar>x\<bar>) (- 1022)"
  define q :: real where "q = 2 powi (e - 52)"
  define k where "k = round_half_even (x / q)"
  have qpos: "0 < q" by (simp add: q_def)
  have xpos: "0 < \<bar>x\<bar>" using False by simp
  have res: "round_double x =
    (if 2 ^ 1024 \<le> of_int k * q then PosInf else if of_int k * q \<le> - (2 ^ 1024) then NegInf
     else Finite (of_int k * q))"
    using False by (simp add: round_double_def Let_def e_def [symmetric] q_def [symmetric] k_def)
  then have v: "v = of_int k * q" and r: "\<bar>v\<bar> < 2 ^ 1024"
    using assms by (auto split: if_splits)
  have "\<bar>x\<bar> < 2 powi (ilog2 \<bar>x\<bar> + 1)" using ilog2_bounds [OF xpos] by simp
  also have "\<dots> \<le> 2 powi (e + 1)" by (intro power_int_increasing) (simp_all add: e_def)
  also have "\<dots> = 2 ^ 53 * q"
  proof -
    have "e + 1 = 53 + (e - 52)" by simp
    then have "(2::real) powi (e + 1) = 2 powi (53 + (e - 52))" by (simp only:)
    also have "\<dots> = 2 powi 53 * 2 powi (e - 52)" by (rule power_int_add) simp
    finally show ?thesis by (simp add: q_def)
  qed
  finally have "\<bar>x / q\<bar> < 2 ^ 53" using qpos by (simp add: field_simps abs_mult)
  then have "\<bar>x / q\<bar> \<le> of_int (2 ^ 53)" by simp
  then have kb: "\<bar>k\<bar> \<le> 2 ^ 53" unfolding k_def by (rule round_half_even_abs_le)
  have "- 1074 \<le> e - 52" by (simp add: e_def)
  then show ?thesis using v kb r
    by (intro round_double_exact [of v k "e - 52"]) (simp_all add: q_def)
qed

lemma round_double_of_int:
  assumes "\<bar>n\<bar> \<le> 2 ^ 53"
  shows "round_double (of_int n) = Finite (of_int n)"
proof -
  have "\<bar>of_int n :: real\<bar> \<le> of_int (2 ^ 53)" using assms by (metis of_int_abs of_int_le_iff)
  then have "\<bar>of_int n :: real\<bar> < 2 ^ 1024" by simp
  then show ?thesis using assms
    by (intro round_double_exact [of "of_int n" n 0]) simp_all
qed

lemma round_double_0 [simp]: "round_double 0 = Finite 0"
  by (simp add: round_double_def)

lemma is_double_round [simp]: "is_double (round_double x)"
  by (cases "round_double x") (simp_all add: is_double_def round_double_idem)

lemma is_double_fadd [simp]: "is_double (fadd x y)"
  by (cases x; cases y) (simp_all add: is_double_def [of PosInf] is_double_def [of NegInf] is_double_def [of NaN])

lemma is_double_fmul [simp]: "is_double (fmul x y)"
  by (cases x; cases y) (simp_all add: Let_def is_double_def [of PosInf] is_double_def [of NegInf] is_double_def [of NaN])

lemma is_double_fsub [simp]: "is_double (fsub x y)"
  by (simp add: fsub_def)

lemma fadd_zero_right: "is_double x \<Longrightarrow> fadd x (Finite 0) = x"
  by (cases x) (simp_all add: is_double_def)

lemma float_of_int_exact: "\<bar>n\<bar> \<le> 2 ^ 53 \<Longrightarrow> float_of_int n = Inr (Finite (of_int n))"
  by (simp add: float_of_int_def round_double_of_int)

lemma float_of_int_0 [simp]: "float_of_int 0 = Inr (Finite 0)"
  using float_of_int_exact [of 0] by simp

lemma float_of_int_1 [simp]: "float_of_int 1 = Inr (Finite 1)"
  using float_of_int_exact [of 1] by simp

subsection \<open>Python arithmetic\<close>

lemmas round_eval = round_double_def ilog2_def round_half_even_def Let_def compute_floorlog

lemmas py_arith = float_op_def float_of_int_def fsub_def py_sum_def or_empty_def

lemma py_add_zero_right:
  assumes "py_mul x y = Inr r"
  shows "py_add r (PyInt 0) = Inr r"
proof (cases r)
  case (PyInt k)
  then show ?thesis by simp
next
  case (PyFloat f)
  have "is_double f"
  proof (cases x; cases y)
    fix a b assume "x = PyInt a" "y = PyInt b"
    then show ?thesis using assms PyFloat by simp
  qed (use assms PyFloat in \<open>auto simp: float_op_def and_then_def split: sum.splits\<close>)
  then show ?thesis using PyFloat by (simp add: float_op_def fadd_zero_right)
qed

lemmas format_eval = format_currency_def format_comma_2f_def format_2f_def round_half_even_def
  Let_def digits.simps group3.simps digit_char_def

subsection \<open>The table\<close>

lemma append_rows_Inr:
  "map (item_row fr cur) its = map Inr rs \<Longrightarrow> append_rows fr cur rows its = Inr (rows @ rs)"
proof (induction its arbitrary: rows rs)
  case Nil
  then show ?case by simp
next
  case (Cons it its)
  then obtain r rs' where rs: "rs = r # rs'" by (cases rs) auto
  with Cons.prems have "item_row fr cur it = Inr r" "map (item_row fr cur) its = map Inr rs'"
    by simp_all
  then show ?case using Cons.IH [of rs' "rows @ [r]"] rs by simp
qed

lemma append_rows_InrD:
  "append_rows fr cur rows its = Inr out \<Longrightarrow>
     \<exists>rs. map (item_row fr cur) its = map Inr rs \<and> out = rows @ rs"
proof (induction its arbitrary: rows)
  case Nil
  then show ?case by simp
next
  case (Cons it its)
  then obtain r where r: "item_row fr cur it = Inr r"
    by (cases "item_row fr cur it") simp_all
  with Cons.prems have "append_rows fr cur (rows @ [r]) its = Inr out" by simp
  from Cons.IH [OF this] obtain rs where
    "map (item_row fr cur) its = map Inr rs" "out = (rows @ [r]) @ rs" by blast
  then have "map (item_row fr cur) (it # its) = map Inr (r # rs) \<and> out = rows @ (r # rs)"
    using r by simp
  then show ?case by blast
qed

lemma pad_rows_eq: "pad_rows rows = rows @ replicate (7 - length rows) blank_row"
proof (induction rows rule: pad_rows.induct)
  case (1 rows)
  show ?case
  proof (cases "length rows < 7")
    case True
    then have "7 - length rows = Suc (7 - length (rows @ [blank_row]))" by simp
    then show ?thesis using 1 True
      by (subst pad_rows.simps) (simp add: replicate_app_Cons_same)
  next
    case False
    then show ?thesis by (subst pad_rows.simps) simp
  qed
qed

subsection \<open>The handler\<close>

lemma float_each_append:
  "float_each fos (xs @ ys) =
     and_then (float_each fos xs) (\<lambda>a. and_then (float_each fos ys) (\<lambda>b. Inr (a @ b)))"
proof (induction xs)
  case Nil
  then show ?case by (cases "float_each fos ys") simp_all
next
  case (Cons x xs)
  show ?case
  proof (cases "py_float fos x")
    case (Inl e)
    then show ?thesis by simp
  next
    case (Inr v)
    then show ?thesis using Cons
      by (cases "float_each fos xs"; cases "float_each fos ys") simp_all
  qed
qed

lemma float_each_zeros:
  "float_each fos (replicate k (PNum (PyFloat (Finite 0)))) = Inr (replicate k (PyFloat (Finite 0)))"
  by (induction k) simp_all

lemma float_each_length: "float_each fos xs = Inr fs \<Longrightarrow> length fs = length xs"
proof (induction xs arbitrary: fs)
  case Nil
  then show ?case by simp
next
  case (Cons x xs)
  then show ?case
    by (cases "py_float fos x"; cases "float_each fos xs") auto
qed

lemma iadd_list_InrD: "iadd_list v ys = Inr zs \<Longrightarrow> \<exists>xs. v = PList xs \<and> zs = xs @ ys"
  by (cases v) simp_all

lemma and_then_InrD: "and_then r f = Inr y \<Longrightarrow> \<exists>v. r = Inr v \<and> f v = Inr y"
  by (cases r) simp_all
lemma make_item_InrD:
  assumes "make_item ios fos item_json = Inr it"
  shows "\<exists>ts as n q0 q p0 p fs.
      dict_get item_json ''charge_types'' (PList []) = Inr (PList ts)
    \<and> dict_get item_json ''charge_amounts'' (PList []) = Inr (PList as)
    \<and> subscript item_json ''name'' = Inr n
    \<and> subscript item_json ''quantity'' = Inr q0 \<and> py_int ios q0 = Inr q
    \<and> subscript item_json ''price'' = Inr p0 \<and> py_float fos p0 = Inr p
    \<and> float_each fos
         (as @ replicate (max (length ts) (length as) - length as) (PNum (PyFloat (Finite 0))))
        = Inr fs
    \<and> it = \<lparr>name = n, qty = PyInt q, price = PyFloat p,
            charge_types = Some (ts @ replicate (max (length ts) (length as) - length ts) (PStr [])),
            charge_amounts = Some fs\<rparr>"
  using assms unfolding make_item_def Let_def
  by (auto dest!: and_then_InrD iadd_list_InrD)

subsection \<open>The subtotal\<close>

lemma subtotal_from_sum:
  "map price_cal its = map Inr ts \<Longrightarrow> subtotal_from acc its = sum_from acc ts"
proof (induction its arbitrary: acc ts)
  case Nil
  then show ?case by simp
next
  case (Cons it its)
  then obtain t ts' where ts: "ts = t # ts'" by (cases ts) auto
  with Cons.prems have "price_cal it = Inr t" "map price_cal its = map Inr ts'" by simp_all
  then show ?case using Cons.IH [of ts'] ts by (cases "py_add acc t") simp_all
qed

lemma subtotal_from_exact:
  assumes "\<forall>it\<in>set its. price_cal it = Inr (PyFloat (Finite (of_int (g it))))"
    and "\<bar>a\<bar> + (\<Sum>it\<leftarrow>its. \<bar>g it\<bar>) \<le> 2 ^ 53"
  shows "subtotal_from (PyFloat (Finite (of_int a))) its =
           Inr (PyFloat (Finite (of_int (a + (\<Sum>it\<leftarrow>its. g it)))))"
  using assms
proof (induction its arbitrary: a)
  case Nil
  then show ?case by simp
next
  case (Cons it its)
  have p: "price_cal it = Inr (PyFloat (Finite (of_int (g it))))" using Cons.prems(1) by simp
  have "\<bar>a + g it\<bar> \<le> \<bar>a\<bar> + \<bar>g it\<bar>" by simp
  moreover have "0 \<le> (\<Sum>it\<leftarrow>its. \<bar>g it\<bar>)" by (rule sum_list_nonneg) auto
  ultimately have b: "\<bar>a + g it\<bar> \<le> 2 ^ 53" and b': "\<bar>a + g it\<bar> + (\<Sum>it\<leftarrow>its. \<bar>g it\<bar>) \<le> 2 ^ 53"
    using Cons.prems(2) by simp_all
  have "round_double (of_int a + of_int (g it)) = Finite (of_int (a + g it))"
    using round_double_of_int [OF b] by simp
  then have "py_add (PyFloat (Finite (of_int a))) (PyFloat (Finite (of_int (g it)))) =
      Inr (PyFloat (Finite (of_int (a + g it))))"
    by (simp add: float_op_def)
  moreover have "subtotal_from (PyFloat (Finite (of_int (a + g it)))) its =
      Inr (PyFloat (Finite (of_int (a + g it + (\<Sum>it\<leftarrow>its. g it)))))"
    using Cons.IH [of "a + g it"] Cons.prems(1) b' by simp
  ultimately show ?case using p by (simp add: add.assoc)
qed

lemma calculate_subtotal_exact:
  assumes "\<forall>it\<in>set its. price_cal it = Inr (PyFloat (Finite (of_int (g it))))"
    and "(\<Sum>it\<leftarrow>its. \<bar>g it\<bar>) \<le> 2 ^ 53"
  shows "calculate_subtotal its =
           Inr (if its = [] then PyInt 0 else PyFloat (Finite (of_int (\<Sum>it\<leftarrow>its. g it))))"
proof (cases its)
  case Nil
  then show ?thesis by (simp add: calculate_subtotal_def)
next
  case (Cons it its')
  have p: "price_cal it = Inr (PyFloat (Finite (of_int (g it))))" using assms(1) Cons by simp
  have nn: "0 \<le> (\<Sum>it\<leftarrow>its'. \<bar>g it\<bar>)" by (rule sum_list_nonneg) auto
  then have b: "\<bar>g it\<bar> \<le> 2 ^ 53" using assms(2) Cons by simp
  have "round_double (of_int (g it)) = Finite (of_int (g it))"
    by (rule round_double_of_int [OF b])
  then have "py_add (PyInt 0) (PyFloat (Finite (of_int (g it)))) =
      Inr (PyFloat (Finite (of_int (g it))))"
    by (simp add: float_op_def)
  moreover have "subtotal_from (PyFloat (Finite (of_int (g it)))) its' =
      Inr (PyFloat (Finite (of_int (g it + (\<Sum>it\<leftarrow>its'. g it)))))"
    using subtotal_from_exact [of its' g "g it"] assms Cons by simp
  ultimately show ?thesis using p Cons by (simp add: calculate_subtotal_def)
qed

lemma sum_list_mset_cong:
  fixes f :: "'a \<Rightarrow> int"
  assumes "mset xs = mset ys"
  shows "(\<Sum>x\<leftarrow>xs. f x) = (\<Sum>x\<leftarrow>ys. f x)"
proof -
  have "(\<Sum>x\<leftarrow>xs. f x) = sum_mset (image_mset f (mset xs))"
    by (metis mset_map sum_mset_sum_list)
  also have "\<dots> = sum_mset (image_mset f (mset ys))" using assms by simp
  also have "\<dots> = (\<Sum>x\<leftarrow>ys. f x)" by (metis mset_map sum_mset_sum_list)
  finally show ?thesis .
qed

section \<open>The claims\<close>

text \<open>
  C1: under \<^verbatim>\<open>INR\<close> the amount 1234.5 is printed with the prefix of the source's
  literal, three characters that are not the rupee sign; under any other code with the
  dollar sign.
\<close>

theorem format_currency_inr:
  "format_currency (PStr ''INR'') (PyFloat (Finite (2469 / 2))) = Inr (inr_prefix @ ''1,234.50'')
   \<and> format_currency (PStr ''INR'') (PyFloat (Finite (2469 / 2))) \<noteq> Inr (rupee_sign @ ''1,234.50'')
   \<and> format_currency (PStr ''XYZ'') (PyFloat (Finite (2469 / 2))) = Inr ''$1,234.50''"
  by (simp add: format_eval inr_prefix_def rupee_sign_def)

text \<open>
  C2: \<open>apply_discount\<close> returns \<open>subtotal * (1 - discount)\<close> for the type
  \<open>percentage\<close> and \<open>subtotal - discount\<close> for every other type, which is never
  rejected; the flat result is not clamped: 10 less 30 is - 20.
\<close>

theorem apply_discount_spec:
  "apply_discount subtotal disc (PStr ''percentage'') =
     and_then (py_sub (PyInt 1) disc) (\<lambda>k. py_mul subtotal k)
   \<and> apply_discount (PyFloat s) (PyFloat d) (PStr ''percentage'') =
       Inr (PyFloat (fmul s (fsub (Finite 1) d)))
   \<and> (dtype \<noteq> PStr ''percentage'' \<longrightarrow>
        apply_discount subtotal disc dtype = py_sub subtotal disc
        \<and> apply_discount (PyFloat s) (PyFloat d) dtype = Inr (PyFloat (fsub s d)))
   \<and> apply_discount (PyFloat (Finite 10)) (PyFloat (Finite 30)) (PStr ''flat'') =
       Inr (PyFloat (Finite (- 20)))"
proof -
  have "round_double (10 + - 30) = Finite (- 20)"
    using round_double_of_int [of "- 20"] by simp
  then show ?thesis
    by (simp add: apply_discount_def float_op_def fsub_def)
qed

theorem apply_discount_spec_witness:
  "PStr ''bogus'' \<noteq> PStr ''percentage''
   \<and> apply_discount (PyFloat (Finite 100)) (PyFloat (Finite 30)) (PStr ''bogus'') =
       Inr (PyFloat (Finite 70))"
  using apply_discount_spec [of "PyFloat (Finite 100)" "PyFloat (Finite 30)" "Finite 100"
      "Finite 30" "PStr ''bogus''"]
  by (simp add: fsub_def float_op_def round_eval)

text \<open>
  C3: \<open>apply_tax\<close> returns \<open>discounted * (1 + tax_rate)\<close>; an invoice with one item of
  quantity 2 and price 10.0 without extra charges, tax rate 0.1 (the nearest
  \<^verbatim>\<open>float\<close>, 3602879701896397 / 2 ^ 55) and discount 0.0 has subtotal 20.0 and total 22.0;
  with the \<^verbatim>\<open>int\<close> price 10 and the \<^verbatim>\<open>int\<close> discount 0 the subtotal is the \<^verbatim>\<open>int\<close> 20 and
  the total 22.0.
\<close>

theorem apply_tax_spec:
  "apply_tax amount rate = and_then (py_add (PyInt 1) rate) (\<lambda>k. py_mul amount k)
   \<and> apply_tax (PyFloat a) (PyFloat r) = Inr (PyFloat (fmul a (fadd (Finite 1) r)))
   \<and> and_then (add_item (new_invoice c now ident)
         \<lparr>name = n, qty = PyInt 2, price = PyFloat (Finite 10),
          charge_types = Some [], charge_amounts = Some []\<rparr>) (\<lambda>i1.
       and_then (set_tax_rate i1
         (PNum (PyFloat (Finite (3602879701896397 / 36028797018963968))))) (\<lambda>i2.
       and_then (set_discount i2 (PNum (PyFloat (Finite 0))) (PStr ''flat'')) invoice_totals))
     = Inr (PyFloat (Finite 20), PyFloat (Finite 20), PyFloat (Finite 22))
   \<and> and_then (add_item (new_invoice c now ident)
         \<lparr>name = n, qty = PyInt 2, price = PyInt 10,
          charge_types = None, charge_amounts = None\<rparr>) (\<lambda>i1.
       and_then (set_tax_rate i1
         (PNum (PyFloat (Finite (3602879701896397 / 36028797018963968))))) (\<lambda>i2.
       and_then (set_discount i2 (PNum (PyInt 0)) (PStr ''flat'')) invoice_totals))
     = Inr (PyInt 20, PyInt 20, PyFloat (Finite 22))"
proof -
  have a1: "apply_tax amount rate = and_then (py_add (PyInt 1) rate) (\<lambda>k. py_mul amount k)"
    by (simp add: apply_tax_def)
  have a2: "apply_tax (PyFloat a) (PyFloat r) = Inr (PyFloat (fmul a (fadd (Finite 1) r)))"
    by (simp add: apply_tax_def float_op_def)
  have r2: "round_double 2 = Finite 2" using round_double_of_int [of 2] by simp
  have r20: "round_double 20 = Finite 20" using round_double_of_int [of 20] by simp
  have sub: "calculate_subtotal
      [\<lparr>name = n, qty = PyInt 2, price = PyFloat (Finite 10),
        charge_types = Some [], charge_amounts = Some []\<rparr>] = Inr (PyFloat (Finite 20))"
    by (simp add: calculate_subtotal_def price_cal_def py_arith r2 r20)
  have tax: "apply_tax (PyFloat (Finite 20))
      (PyFloat (Finite (3602879701896397 / 36028797018963968))) = Inr (PyFloat (Finite 22))"
    by (simp add: apply_tax_def float_op_def round_eval)
  have tax': "apply_tax (PyInt 20)
      (PyFloat (Finite (3602879701896397 / 36028797018963968))) = Inr (PyFloat (Finite 22))"
    by (simp add: apply_tax_def float_op_def float_of_int_def round_eval)
  have a4: "and_then (add_item (new_invoice c now ident)
         \<lparr>name = n, qty = PyInt 2, price = PyInt 10,
          charge_types = None, charge_amounts = None\<rparr>) (\<lambda>i1.
       and_then (set_tax_rate i1
         (PNum (PyFloat (Finite (3602879701896397 / 36028797018963968))))) (\<lambda>i2.
       and_then (set_discount i2 (PNum (PyInt 0)) (PStr ''flat'')) invoice_totals))
     = Inr (PyInt 20, PyInt 20, PyFloat (Finite 22))"
    by (simp add: add_item_def set_tax_rate_def set_discount_def new_invoice_def
        invoice_totals_def calculate_subtotal_def price_cal_def py_sum_def or_empty_def
        apply_discount_def tax')
  have a3: "and_then (add_item (new_invoice c now ident)
         \<lparr>name = n, qty = PyInt 2, price = PyFloat (Finite 10),
          charge_types = Some [], charge_amounts = Some []\<rparr>) (\<lambda>i1.
       and_then (set_tax_rate i1
         (PNum (PyFloat (Finite (3602879701896397 / 36028797018963968))))) (\<lambda>i2.
       and_then (set_discount i2 (PNum (PyFloat (Finite 0))) (PStr ''flat'')) invoice_totals))
     = Inr (PyFloat (Finite 20), PyFloat (Finite 20), PyFloat (Finite 22))"
    by (simp add: add_item_def set_tax_rate_def set_discount_def new_invoice_def
        invoice_totals_def sub apply_discount_def float_op_def fsub_def r20 tax)
  from a1 a2 a3 a4 show ?thesis by blast
qed

text \<open>
  C4: the line total is \<open>qty * price + sum(charge_amounts)\<close>; with the one charge 5.0
  it is \<open>qty * price + 5.0\<close>, 35.0 for three units at 10.0.
\<close>

theorem price_cal_spec:
  "price_cal it =
     and_then (py_mul (qty it) (price it)) (\<lambda>base.
     and_then (py_sum (or_empty (charge_amounts it))) (\<lambda>extras. py_add base extras))
   \<and> price_cal (it\<lparr>charge_types := Some [PStr ''shipping''],
                    charge_amounts := Some [PyFloat (Finite 5)]\<rparr>) =
       and_then (py_mul (qty it) (price it)) (\<lambda>base. py_add base (PyFloat (Finite 5)))
   \<and> price_cal \<lparr>name = n, qty = PyInt 3, price = PyFloat (Finite 10),
         charge_types = Some [PStr ''shipping''],
         charge_amounts = Some [PyFloat (Finite 5)]\<rparr> = Inr (PyFloat (Finite 35))"
proof -
  have r3: "round_double 3 = Finite 3" using round_double_of_int [of 3] by simp
  have r5: "round_double 5 = Finite 5" using round_double_of_int [of 5] by simp
  have r30: "round_double 30 = Finite 30" using round_double_of_int [of 30] by simp
  have r35: "round_double 35 = Finite 35" using round_double_of_int [of 35] by simp
  show ?thesis
    by (simp add: price_cal_def py_arith r3 r5 r30 r35)
qed

text \<open>
  C5 (as amended): the subtotal is the sum of the line totals, added from left to
  right starting from 0; it does not depend on the order of the items when every
  line total is a whole number (as a \<^verbatim>\<open>float\<close>) and the absolute line totals add up to at
  most \<open>2 ^ 53\<close>, so that no addition rounds.
\<close>

theorem calculate_subtotal_sum:
  "(map price_cal its = map Inr ts \<longrightarrow> calculate_subtotal its = py_sum ts)
   \<and> ((\<forall>it\<in>set its. price_cal it = Inr (PyFloat (Finite (of_int (g it)))))
        \<and> (\<Sum>it\<leftarrow>its. \<bar>g it\<bar>) \<le> 2 ^ 53 \<and> mset its' = mset its \<longrightarrow>
      calculate_subtotal its' = calculate_subtotal its)"
proof (intro conjI impI)
  assume "map price_cal its = map Inr ts"
  then show "calculate_subtotal its = py_sum ts"
    by (simp add: calculate_subtotal_def py_sum_def subtotal_from_sum)
next
  assume a: "(\<forall>it\<in>set its. price_cal it = Inr (PyFloat (Finite (of_int (g it)))))
        \<and> (\<Sum>it\<leftarrow>its. \<bar>g it\<bar>) \<le> 2 ^ 53 \<and> mset its' = mset its"
  then have m: "mset its' = mset its" by simp
  have s: "set its' = set its" using m by (rule mset_eq_setD)
  have "(\<Sum>it\<leftarrow>its'. \<bar>g it\<bar>) = (\<Sum>it\<leftarrow>its. \<bar>g it\<bar>)" using m by (rule sum_list_mset_cong)
  then have 1: "calculate_subtotal its' =
      Inr (if its' = [] then PyInt 0 else PyFloat (Finite (of_int (\<Sum>it\<leftarrow>its'. g it))))"
    using a s by (intro calculate_subtotal_exact) simp_all
  have 2: "calculate_subtotal its =
      Inr (if its = [] then PyInt 0 else PyFloat (Finite (of_int (\<Sum>it\<leftarrow>its. g it))))"
    using a by (intro calculate_subtotal_exact) simp_all
  have "(\<Sum>it\<leftarrow>its'. g it) = (\<Sum>it\<leftarrow>its. g it)" using m by (rule sum_list_mset_cong)
  moreover have "its' = [] \<longleftrightarrow> its = []" using m by (metis mset_zero_iff)
  ultimately show "calculate_subtotal its' = calculate_subtotal its" using 1 2 by simp
qed

theorem calculate_subtotal_sum_witness:
  "calculate_subtotal
     [\<lparr>name = PStr ''a'', qty = PyInt 1, price = PyFloat (Finite 10),
       charge_types = None, charge_amounts = None\<rparr>,
      \<lparr>name = PStr ''b'', qty = PyInt 1, price = PyFloat (Finite 20),
       charge_types = None, charge_amounts = None\<rparr>,
      \<lparr>name = PStr ''c'', qty = PyInt 1, price = PyFloat (Finite 30),
       charge_types = None, charge_amounts = None\<rparr>]
     = Inr (PyFloat (Finite 60))
   \<and> calculate_subtotal
     [\<lparr>name = PStr ''c'', qty = PyInt 1, price = PyFloat (Finite 30),
       charge_types = None, charge_amounts = None\<rparr>,
      \<lparr>name = PStr ''a'', qty = PyInt 1, price = PyFloat (Finite 10),
       charge_types = None, charge_amounts = None\<rparr>,
      \<lparr>name = PStr ''b'', qty = PyInt 1, price = PyFloat (Finite 20),
       charge_types = None, charge_amounts = None\<rparr>]
     = Inr (PyFloat (Finite 60))"
proof -
  have r: "round_double 1 = Finite 1" "round_double 10 = Finite 10" "round_double 20 = Finite 20"
    "round_double 30 = Finite 30" "round_double 60 = Finite 60"
    using round_double_of_int [of 1] round_double_of_int [of 10] round_double_of_int [of 20]
      round_double_of_int [of 30] round_double_of_int [of 60] by simp_all
  have p: "price_cal \<lparr>name = PStr ''a'', qty = PyInt 1, price = PyFloat (Finite 10),
       charge_types = None, charge_amounts = None\<rparr> = Inr (PyFloat (Finite 10))"
    "price_cal \<lparr>name = PStr ''b'', qty = PyInt 1, price = PyFloat (Finite 20),
       charge_types = None, charge_amounts = None\<rparr> = Inr (PyFloat (Finite 20))"
    "price_cal \<lparr>name = PStr ''c'', qty = PyInt 1, price = PyFloat (Finite 30),
       charge_types = None, charge_amounts = None\<rparr> = Inr (PyFloat (Finite 30))"
    by (simp_all add: price_cal_def py_arith r)
  have s: "py_sum [PyFloat (Finite 10), PyFloat (Finite 20), PyFloat (Finite 30)] =
      Inr (PyFloat (Finite 60))"
    by (simp add: py_arith r)
  show ?thesis
    using calculate_subtotal_sum [of
        "[\<lparr>name = PStr ''a'', qty = PyInt 1, price = PyFloat (Finite 10),
           charge_types = None, charge_amounts = None\<rparr>,
          \<lparr>name = PStr ''b'', qty = PyInt 1, price = PyFloat (Finite 20),
           charge_types = None, charge_amounts = None\<rparr>,
          \<lparr>name = PStr ''c'', qty = PyInt 1, price = PyFloat (Finite 30),
           charge_types = None, charge_amounts = None\<rparr>]"
        "[PyFloat (Finite 10), PyFloat (Finite 20), PyFloat (Finite 30)]"
        "\<lambda>it. case price it of PyFloat (Finite x) \<Rightarrow> \<lfloor>x\<rfloor> | _ \<Rightarrow> 0"
        "[\<lparr>name = PStr ''c'', qty = PyInt 1, price = PyFloat (Finite 30),
           charge_types = None, charge_amounts = None\<rparr>,
          \<lparr>name = PStr ''a'', qty = PyInt 1, price = PyFloat (Finite 10),
           charge_types = None, charge_amounts = None\<rparr>,
          \<lparr>name = PStr ''b'', qty = PyInt 1, price = PyFloat (Finite 20),
           charge_types = None, charge_amounts = None\<rparr>]"]
      p s
    by (simp add: add_mset_commute)
qed

text \<open>
  C5 as stated fails: float addition rounds, so the order matters.  Four items with the
  line totals 1.0, 1.0, \<open>2 ^ 53\<close> and \<open>2 ^ 106\<close> add up to \<open>2 ^ 106 + 2 ^ 54\<close> in this
  order and to \<open>2 ^ 106\<close> in the order 1.0, \<open>2 ^ 53\<close>, \<open>2 ^ 106\<close>, 1.0.
\<close>

theorem calculate_subtotal_order_matters:
  "mset [\<lparr>name = PStr ''a'', qty = PyInt 1, price = PyFloat (Finite 1),
           charge_types = None, charge_amounts = None\<rparr>,
         \<lparr>name = PStr ''b'', qty = PyInt 1, price = PyFloat (Finite 9007199254740992),
           charge_types = None, charge_amounts = None\<rparr>,
         \<lparr>name = PStr ''c'', qty = PyInt 1,
           price = PyFloat (Finite 81129638414606681695789005144064),
           charge_types = None, charge_amounts = None\<rparr>,
         \<lparr>name = PStr ''a'', qty = PyInt 1, price = PyFloat (Finite 1),
           charge_types = None, charge_amounts = None\<rparr>]
   = mset [\<lparr>name = PStr ''a'', qty = PyInt 1, price = PyFloat (Finite 1),
           charge_types = None, charge_amounts = None\<rparr>,
         \<lparr>name = PStr ''a'', qty = PyInt 1, price = PyFloat (Finite 1),
           charge_types = None, charge_amounts = None\<rparr>,
         \<lparr>name = PStr ''b'', qty = PyInt 1, price = PyFloat (Finite 9007199254740992),
           charge_types = None, charge_amounts = None\<rparr>,
         \<lparr>name = PStr ''c'', qty = PyInt 1,
           price = PyFloat (Finite 81129638414606681695789005144064),
           charge_types = None, charge_amounts = None\<rparr>]
   \<and> calculate_subtotal
        [\<lparr>name = PStr ''a'', qty = PyInt 1, price = PyFloat (Finite 1),
           charge_types = None, charge_amounts = None\<rparr>,
         \<lparr>name = PStr ''a'', qty = PyInt 1, price = PyFloat (Finite 1),
           charge_types = None, charge_amounts = None\<rparr>,
         \<lparr>name = PStr ''b'', qty = PyInt 1, price = PyFloat (Finite 9007199254740992),
           charge_types = None, charge_amounts = None\<rparr>,
         \<lparr>name = PStr ''c'', qty = PyInt 1,
           price = PyFloat (Finite 81129638414606681695789005144064),
           charge_types = None, charge_amounts = None\<rparr>]
       = Inr (PyFloat (Finite 81129638414606699710187514626048))
   \<and> calculate_subtotal
        [\<lparr>name = PStr ''a'', qty = PyInt 1, price = PyFloat (Finite 1),
           charge_types = None, charge_amounts = None\<rparr>,
         \<lparr>name = PStr ''b'', qty = PyInt 1, price = PyFloat (Finite 9007199254740992),
           charge_types = None, charge_amounts = None\<rparr>,
         \<lparr>name = PStr ''c'', qty = PyInt 1,
           price = PyFloat (Finite 81129638414606681695789005144064),
           charge_types = None, charge_amounts = None\<rparr>,
         \<lparr>name = PStr ''a'', qty = PyInt 1, price = PyFloat (Finite 1),
           charge_types = None, charge_amounts = None\<rparr>]
       = Inr (PyFloat (Finite 81129638414606681695789005144064))
   \<and> PyFloat (Finite 81129638414606699710187514626048)
       \<noteq> PyFloat (Finite 81129638414606681695789005144064)"
proof -
  have r: "round_double 1 = Finite 1" "round_double 2 = Finite 2"
    "round_double 9007199254740992 = Finite 9007199254740992"
    "round_double 9007199254740993 = Finite 9007199254740992"
    "round_double 9007199254740994 = Finite 9007199254740994"
    "round_double 81129638414606681695789005144064 = Finite 81129638414606681695789005144064"
    "round_double 81129638414606690702988259885056 = Finite 81129638414606681695789005144064"
    "round_double 81129638414606681695789005144065 = Finite 81129638414606681695789005144064"
    "round_double 81129638414606690702988259885058 = Finite 81129638414606699710187514626048"
    by (simp_all add: round_eval)
  have p: "price_cal \<lparr>name = PStr ''a'', qty = PyInt 1, price = PyFloat (Finite 1),
           charge_types = None, charge_amounts = None\<rparr> = Inr (PyFloat (Finite 1))"
    "price_cal \<lparr>name = PStr ''b'', qty = PyInt 1, price = PyFloat (Finite 9007199254740992),
           charge_types = None, charge_amounts = None\<rparr> = Inr (PyFloat (Finite 9007199254740992))"
    "price_cal \<lparr>name = PStr ''c'', qty = PyInt 1,
           price = PyFloat (Finite 81129638414606681695789005144064),
           charge_types = None, charge_amounts = None\<rparr>
       = Inr (PyFloat (Finite 81129638414606681695789005144064))"
    by (simp_all add: price_cal_def py_arith r)
  show ?thesis
    by (simp add: calculate_subtotal_def p float_op_def r add_mset_commute)
qed

text \<open>
  C6 (as amended): \<open>set_tax_rate\<close> stores any value, a number or not, and never fails.
\<close>

theorem set_tax_rate_overwrites:
  "set_tax_rate iv rate = Inr (iv\<lparr>tax_rate := rate\<rparr>)
   \<and> (\<forall>e. set_tax_rate iv rate \<noteq> Inl e)"
  by (simp add: set_tax_rate_def)

text \<open>
  C6 as stated fails: the string \<^verbatim>\<open>'abc'\<close> is not a number, and \<open>set_tax_rate\<close>
  stores it without raising; the \<^verbatim>\<open>TypeError\<close> only comes when the totals are computed.
\<close>

theorem set_tax_rate_non_numeric:
  "\<not> is_numeric (PStr ''abc'')
   \<and> set_tax_rate
        (new_invoice \<lparr>client_name = PStr ''A'', email = PStr ''a@b.c'', address = PStr ''X'',
                      contact = PNone\<rparr> 0 1) (PStr ''abc'')
     = Inr ((new_invoice \<lparr>client_name = PStr ''A'', email = PStr ''a@b.c'', address = PStr ''X'',
                      contact = PNone\<rparr> 0 1)\<lparr>tax_rate := PStr ''abc''\<rparr>)
   \<and> and_then (set_tax_rate
        (new_invoice \<lparr>client_name = PStr ''A'', email = PStr ''a@b.c'', address = PStr ''X'',
                      contact = PNone\<rparr> 0 1) (PStr ''abc'')) invoice_totals = Inl TypeError"
  by (simp add: set_tax_rate_def new_invoice_def invoice_totals_def calculate_subtotal_def
      apply_discount_def float_op_def fsub_def)

text \<open>
  C7: the table is the header row, one row per item in the order of the list (none
  dropped, however many there are), then blank rows up to seven rows in all:
  \<open>max 7 (n + 1)\<close> rows.  The table exists exactly when every item's row can be built.
\<close>

theorem item_data_rows:
  "(map (item_row fr cur) (items iv) = map Inr rs \<longrightarrow>
      item_data fr cur iv = Inr (table_headers # rs @ replicate (6 - length rs) blank_row))
   \<and> (item_data fr cur iv = Inr rows \<longrightarrow>
      (\<exists>rs. map (item_row fr cur) (items iv) = map Inr rs
         \<and> rows = table_headers # rs @ replicate (6 - length rs) blank_row)
      \<and> length rows = max 7 (length (items iv) + 1))"
proof (intro conjI impI)
  assume a: "map (item_row fr cur) (items iv) = map Inr rs"
  show "item_data fr cur iv = Inr (table_headers # rs @ replicate (6 - length rs) blank_row)"
    by (simp add: item_data_def append_rows_Inr [OF a] pad_rows_eq)
next
  assume b: "item_data fr cur iv = Inr rows"
  then obtain out where out: "append_rows fr cur [table_headers] (items iv) = Inr out"
    and rows: "rows = pad_rows out"
    by (cases "append_rows fr cur [table_headers] (items iv)") (auto simp: item_data_def)
  from append_rows_InrD [OF out] obtain rs where
    rs: "map (item_row fr cur) (items iv) = map Inr rs" "out = [table_headers] @ rs" by blast
  have eq: "rows = table_headers # rs @ replicate (6 - length rs) blank_row"
    using rows rs(2) by (simp add: pad_rows_eq)
  then show "\<exists>rs. map (item_row fr cur) (items iv) = map Inr rs
         \<and> rows = table_headers # rs @ replicate (6 - length rs) blank_row"
    using rs(1) by blast
  have "length rs = length (items iv)" using rs(1) by (metis length_map)
  then show "length rows = max 7 (length (items iv) + 1)" using eq by auto
qed

theorem item_data_rows_witness:
  "item_data (\<lambda>x. ''?'') (PStr ''USD'')
     ((new_invoice \<lparr>client_name = PStr ''A'', email = PStr ''a@b.c'', address = PStr ''X'',
                    contact = PNone\<rparr> 0 1)
      \<lparr>items := [\<lparr>name = PStr ''Widget'', qty = PyInt 2, price = PyFloat (Finite 10),
                  charge_types = Some [PStr ''shipping'', PStr ''tax''],
                  charge_amounts = Some [PyFloat (Finite 5), PyFloat (Finite 1)]\<rparr>]\<rparr>)
   = Inr [table_headers,
          [Paragraph (PStr ''Widget'') ''tabval'', Paragraph (PStr ''shipping, tax'') ''tabval'',
           Paragraph (PStr ''$10.00'') ''tabval'', Paragraph (PStr ''2'') ''tabval'',
           Paragraph (PStr ''$26.00'') ''tabval''],
          blank_row, blank_row, blank_row, blank_row, blank_row]
   \<and> item_data (\<lambda>x. ''?'') (PStr ''USD'')
     ((new_invoice \<lparr>client_name = PStr ''A'', email = PStr ''a@b.c'', address = PStr ''X'',
                    contact = PNone\<rparr> 0 1)
      \<lparr>items := replicate 7
                 \<lparr>name = PStr ''Widget'', qty = PyInt 2, price = PyFloat (Finite 10),
                  charge_types = Some [PStr ''shipping'', PStr ''tax''],
                  charge_amounts = Some [PyFloat (Finite 5), PyFloat (Finite 1)]\<rparr>\<rparr>)
   = Inr (table_headers # replicate 7
          [Paragraph (PStr ''Widget'') ''tabval'', Paragraph (PStr ''shipping, tax'') ''tabval'',
           Paragraph (PStr ''$10.00'') ''tabval'', Paragraph (PStr ''2'') ''tabval'',
           Paragraph (PStr ''$26.00'') ''tabval''])"
proof -
  have r: "round_double 2 = Finite 2" "round_double 20 = Finite 20" "round_double 5 = Finite 5"
    "round_double 6 = Finite 6" "round_double 26 = Finite 26"
    using round_double_of_int [of 2] round_double_of_int [of 20] round_double_of_int [of 5]
      round_double_of_int [of 6] round_double_of_int [of 26] by simp_all
  have row: "item_row (\<lambda>x. ''?'') (PStr ''USD'')
       \<lparr>name = PStr ''Widget'', qty = PyInt 2, price = PyFloat (Finite 10),
        charge_types = Some [PStr ''shipping'', PStr ''tax''],
        charge_amounts = Some [PyFloat (Finite 5), PyFloat (Finite 1)]\<rparr>
     = Inr [Paragraph (PStr ''Widget'') ''tabval'', Paragraph (PStr ''shipping, tax'') ''tabval'',
           Paragraph (PStr ''$10.00'') ''tabval'', Paragraph (PStr ''2'') ''tabval'',
           Paragraph (PStr ''$26.00'') ''tabval'']"
    by (simp add: item_row_def py_join_def price_cal_def py_arith r format_eval)
  have one: "item_data (\<lambda>x. ''?'') (PStr ''USD'')
     ((new_invoice \<lparr>client_name = PStr ''A'', email = PStr ''a@b.c'', address = PStr ''X'',
                    contact = PNone\<rparr> 0 1)
      \<lparr>items := [\<lparr>name = PStr ''Widget'', qty = PyInt 2, price = PyFloat (Finite 10),
                  charge_types = Some [PStr ''shipping'', PStr ''tax''],
                  charge_amounts = Some [PyFloat (Finite 5), PyFloat (Finite 1)]\<rparr>]\<rparr>)
   = Inr [table_headers,
          [Paragraph (PStr ''Widget'') ''tabval'', Paragraph (PStr ''shipping, tax'') ''tabval'',
           Paragraph (PStr ''$10.00'') ''tabval'', Paragraph (PStr ''2'') ''tabval'',
           Paragraph (PStr ''$26.00'') ''tabval''],
          blank_row, blank_row, blank_row, blank_row, blank_row]"
    using item_data_rows [of "\<lambda>x. ''?''" "PStr ''USD''"
        "(new_invoice \<lparr>client_name = PStr ''A'', email = PStr ''a@b.c'', address = PStr ''X'',
                    contact = PNone\<rparr> 0 1)
      \<lparr>items := [\<lparr>name = PStr ''Widget'', qty = PyInt 2, price = PyFloat (Finite 10),
                  charge_types = Some [PStr ''shipping'', PStr ''tax''],
                  charge_amounts = Some [PyFloat (Finite 5), PyFloat (Finite 1)]\<rparr>]\<rparr>"
        "[[Paragraph (PStr ''Widget'') ''tabval'', Paragraph (PStr ''shipping, tax'') ''tabval'',
           Paragraph (PStr ''$10.00'') ''tabval'', Paragraph (PStr ''2'') ''tabval'',
           Paragraph (PStr ''$26.00'') ''tabval'']]"]
      row
    by (simp add: numeral_eq_Suc)
  have seven: "item_data (\<lambda>x. ''?'') (PStr ''USD'')
     ((new_invoice \<lparr>client_name = PStr ''A'', email = PStr ''a@b.c'', address = PStr ''X'',
                    contact = PNone\<rparr> 0 1)
      \<lparr>items := replicate 7
                 \<lparr>name = PStr ''Widget'', qty = PyInt 2, price = PyFloat (Finite 10),
                  charge_types = Some [PStr ''shipping'', PStr ''tax''],
                  charge_amounts = Some [PyFloat (Finite 5), PyFloat (Finite 1)]\<rparr>\<rparr>)
   = Inr (table_headers # replicate 7
          [Paragraph (PStr ''Widget'') ''tabval'', Paragraph (PStr ''shipping, tax'') ''tabval'',
           Paragraph (PStr ''$10.00'') ''tabval'', Paragraph (PStr ''2'') ''tabval'',
           Paragraph (PStr ''$26.00'') ''tabval''])"
    using item_data_rows [of "\<lambda>x. ''?''" "PStr ''USD''"
        "(new_invoice \<lparr>client_name = PStr ''A'', email = PStr ''a@b.c'', address = PStr ''X'',
                    contact = PNone\<rparr> 0 1)
      \<lparr>items := replicate 7
                 \<lparr>name = PStr ''Widget'', qty = PyInt 2, price = PyFloat (Finite 10),
                  charge_types = Some [PStr ''shipping'', PStr ''tax''],
                  charge_amounts = Some [PyFloat (Finite 5), PyFloat (Finite 1)]\<rparr>\<rparr>"
        "replicate 7 [Paragraph (PStr ''Widget'') ''tabval'',
           Paragraph (PStr ''shipping, tax'') ''tabval'',
           Paragraph (PStr ''$10.00'') ''tabval'', Paragraph (PStr ''2'') ''tabval'',
           Paragraph (PStr ''$26.00'') ''tabval'']"]
      row
    by simp
  from one seven show ?thesis by simp
qed

text \<open>
  C8: the handler pads both charge sequences to the length of the longer one before it
  constructs the \<open>Item\<close>, the labels with empty strings and the amounts with 0.0.  When
  both are lists and the name, the quantity, the price and the amounts convert, the
  \<open>Item\<close> is constructed with the padded sequences, whichever of the two is the shorter;
  and every \<open>Item\<close> the handler constructs has them.
\<close>

theorem make_item_pads:
  "(dict_get item_json ''charge_types'' (PList []) = Inr (PList ts)
      \<and> dict_get item_json ''charge_amounts'' (PList []) = Inr (PList as)
      \<and> subscript item_json ''name'' = Inr n
      \<and> subscript item_json ''quantity'' = Inr q0 \<and> py_int ios q0 = Inr q
      \<and> subscript item_json ''price'' = Inr p0 \<and> py_float fos p0 = Inr p
      \<and> float_each fos as = Inr fs \<longrightarrow>
    make_item ios fos item_json =
      Inr \<lparr>name = n, qty = PyInt q, price = PyFloat p,
           charge_types =
             Some (ts @ replicate (max (length ts) (length as) - length ts) (PStr [])),
           charge_amounts =
             Some (fs @ replicate (max (length ts) (length as) - length as)
                          (PyFloat (Finite 0)))\<rparr>
    \<and> length (ts @ replicate (max (length ts) (length as) - length ts) (PStr []))
        = max (length ts) (length as)
    \<and> length (fs @ replicate (max (length ts) (length as) - length as) (PyFloat (Finite 0)))
        = max (length ts) (length as))
   \<and> (make_item ios fos item_json = Inr it \<longrightarrow>
     (\<exists>ts as fs.
        dict_get item_json ''charge_types'' (PList []) = Inr (PList ts)
      \<and> dict_get item_json ''charge_amounts'' (PList []) = Inr (PList as)
      \<and> float_each fos as = Inr fs
      \<and> charge_types it =
          Some (ts @ replicate (max (length ts) (length as) - length ts) (PStr []))
      \<and> charge_amounts it =
          Some (fs @ replicate (max (length ts) (length as) - length as) (PyFloat (Finite 0)))
      \<and> length (or_empty (charge_types it)) = max (length ts) (length as)
      \<and> length (or_empty (charge_amounts it)) = max (length ts) (length as)))"
proof (intro conjI impI)
  assume h: "dict_get item_json ''charge_types'' (PList []) = Inr (PList ts)
      \<and> dict_get item_json ''charge_amounts'' (PList []) = Inr (PList as)
      \<and> subscript item_json ''name'' = Inr n
      \<and> subscript item_json ''quantity'' = Inr q0 \<and> py_int ios q0 = Inr q
      \<and> subscript item_json ''price'' = Inr p0 \<and> py_float fos p0 = Inr p
      \<and> float_each fos as = Inr fs"
  then have "float_each fos as = Inr fs" by simp
  then have len: "length fs = length as" by (rule float_each_length)
  from h show "make_item ios fos item_json =
      Inr \<lparr>name = n, qty = PyInt q, price = PyFloat p,
           charge_types =
             Some (ts @ replicate (max (length ts) (length as) - length ts) (PStr [])),
           charge_amounts =
             Some (fs @ replicate (max (length ts) (length as) - length as)
                          (PyFloat (Finite 0)))\<rparr>"
    by (simp add: make_item_def Let_def float_each_append float_each_zeros)
  show "length (ts @ replicate (max (length ts) (length as) - length ts) (PStr []))
        = max (length ts) (length as)"
    by simp
  show "length (fs @ replicate (max (length ts) (length as) - length as) (PyFloat (Finite 0)))
        = max (length ts) (length as)"
    using len by simp
next
  assume a: "make_item ios fos item_json = Inr it"
  from make_item_InrD [OF a] obtain ts as n q p fs' where d:
    "dict_get item_json ''charge_types'' (PList []) = Inr (PList ts)"
    "dict_get item_json ''charge_amounts'' (PList []) = Inr (PList as)"
    "float_each fos
       (as @ replicate (max (length ts) (length as) - length as) (PNum (PyFloat (Finite 0))))
      = Inr fs'"
    "it = \<lparr>name = n, qty = PyInt q, price = PyFloat p,
            charge_types = Some (ts @ replicate (max (length ts) (length as) - length ts) (PStr [])),
            charge_amounts = Some fs'\<rparr>"
    by blast
  from d(3) obtain fs where fs: "float_each fos as = Inr fs"
    "fs' = fs @ replicate (max (length ts) (length as) - length as) (PyFloat (Finite 0))"
    by (cases "float_each fos as") (auto simp: float_each_append float_each_zeros)
  have "length fs = length as" using fs(1) by (rule float_each_length)
  then show "\<exists>ts as fs.
        dict_get item_json ''charge_types'' (PList []) = Inr (PList ts)
      \<and> dict_get item_json ''charge_amounts'' (PList []) = Inr (PList as)
      \<and> float_each fos as = Inr fs
      \<and> charge_types it =
          Some (ts @ replicate (max (length ts) (length as) - length ts) (PStr []))
      \<and> charge_amounts it =
          Some (fs @ replicate (max (length ts) (length as) - length as) (PyFloat (Finite 0)))
      \<and> length (or_empty (charge_types it)) = max (length ts) (length as)
      \<and> length (or_empty (charge_amounts it)) = max (length ts) (length as)"
    using d(1,2,4) fs by (auto simp: or_empty_def)
qed

text \<open>
  Three labels with one amount: the amounts become 5.0, 0.0, 0.0.  One label with two
  amounts: the labels become \<^verbatim>\<open>'shipping'\<close> and the empty string.
\<close>

theorem make_item_pads_witness:
  "make_item (\<lambda>s. None) (\<lambda>s. None)
     (PDict [(''name'', PStr ''Widget''), (''quantity'', PNum (PyInt 2)),
             (''price'', PNum (PyFloat (Finite 10))),
             (''charge_types'', PList [PStr ''shipping'', PStr ''handling'', PStr ''tax'']),
             (''charge_amounts'', PList [PNum (PyFloat (Finite 5))])])
   = Inr \<lparr>name = PStr ''Widget'', qty = PyInt 2, price = PyFloat (Finite 10),
          charge_types = Some [PStr ''shipping'', PStr ''handling'', PStr ''tax''],
          charge_amounts = Some [PyFloat (Finite 5), PyFloat (Finite 0), PyFloat (Finite 0)]\<rparr>
   \<and> make_item (\<lambda>s. None) (\<lambda>s. None)
     (PDict [(''name'', PStr ''Widget''), (''quantity'', PNum (PyInt 2)),
             (''price'', PNum (PyFloat (Finite 10))),
             (''charge_types'', PList [PStr ''shipping'']),
             (''charge_amounts'', PList [PNum (PyFloat (Finite 5)), PNum (PyFloat (Finite 1))])])
   = Inr \<lparr>name = PStr ''Widget'', qty = PyInt 2, price = PyFloat (Finite 10),
          charge_types = Some [PStr ''shipping'', PStr []],
          charge_amounts = Some [PyFloat (Finite 5), PyFloat (Finite 1)]\<rparr>"
proof -
  have one: "make_item (\<lambda>s. None) (\<lambda>s. None)
     (PDict [(''name'', PStr ''Widget''), (''quantity'', PNum (PyInt 2)),
             (''price'', PNum (PyFloat (Finite 10))),
             (''charge_types'', PList [PStr ''shipping'', PStr ''handling'', PStr ''tax'']),
             (''charge_amounts'', PList [PNum (PyFloat (Finite 5))])])
   = Inr \<lparr>name = PStr ''Widget'', qty = PyInt 2, price = PyFloat (Finite 10),
          charge_types = Some [PStr ''shipping'', PStr ''handling'', PStr ''tax''],
          charge_amounts = Some [PyFloat (Finite 5), PyFloat (Finite 0), PyFloat (Finite 0)]\<rparr>"
    using make_item_pads [of
        "PDict [(''name'', PStr ''Widget''), (''quantity'', PNum (PyInt 2)),
             (''price'', PNum (PyFloat (Finite 10))),
             (''charge_types'', PList [PStr ''shipping'', PStr ''handling'', PStr ''tax'']),
             (''charge_amounts'', PList [PNum (PyFloat (Finite 5))])]"
        "[PStr ''shipping'', PStr ''handling'', PStr ''tax'']"
        "[PNum (PyFloat (Finite 5))]" "PStr ''Widget''" "PNum (PyInt 2)" "\<lambda>s. None" 2
        "PNum (PyFloat (Finite 10))" "\<lambda>s. None" "Finite 10" "[PyFloat (Finite 5)]"]
    by (simp add: numeral_eq_Suc)
  have two: "make_item (\<lambda>s. None) (\<lambda>s. None)
     (PDict [(''name'', PStr ''Widget''), (''quantity'', PNum (PyInt 2)),
             (''price'', PNum (PyFloat (Finite 10))),
             (''charge_types'', PList [PStr ''shipping'']),
             (''charge_amounts'', PList [PNum (PyFloat (Finite 5)), PNum (PyFloat (Finite 1))])])
   = Inr \<lparr>name = PStr ''Widget'', qty = PyInt 2, price = PyFloat (Finite 10),
          charge_types = Some [PStr ''shipping'', PStr []],
          charge_amounts = Some [PyFloat (Finite 5), PyFloat (Finite 1)]\<rparr>"
    using make_item_pads [of
        "PDict [(''name'', PStr ''Widget''), (''quantity'', PNum (PyInt 2)),
             (''price'', PNum (PyFloat (Finite 10))),
             (''charge_types'', PList [PStr ''shipping'']),
             (''charge_amounts'', PList [PNum (PyFloat (Finite 5)), PNum (PyFloat (Finite 1))])]"
        "[PStr ''shipping'']"
        "[PNum (PyFloat (Finite 5)), PNum (PyFloat (Finite 1))]" "PStr ''Widget''"
        "PNum (PyInt 2)" "\<lambda>s. None" 2
        "PNum (PyFloat (Finite 10))" "\<lambda>s. None" "Finite 10"
        "[PyFloat (Finite 5), PyFloat (Finite 1)]"]
    by (simp add: numeral_eq_Suc)
  from one two show ?thesis by simp
qed

text \<open>
  C9: the quantity of the constructed \<open>Item\<close> is \<^verbatim>\<open>int(quantity)\<close>, an \<^verbatim>\<open>int\<close>: a
  \<^verbatim>\<open>float\<close> quantity loses its fraction (towards zero, the floor of a quantity that is
  not negative), and the line total is computed from the truncated quantity.
\<close>

theorem make_item_qty:
  assumes "make_item ios fos item_json = Inr it"
  shows "\<exists>q0 n.
      subscript item_json ''quantity'' = Inr q0 \<and> py_int ios q0 = Inr n \<and> qty it = PyInt n
    \<and> (\<forall>r. q0 = PNum (PyFloat (Finite r)) \<longrightarrow> n = (if 0 \<le> r then \<lfloor>r\<rfloor> else \<lceil>r\<rceil>))
    \<and> price_cal it =
        and_then (py_mul (PyInt n) (price it)) (\<lambda>base.
        and_then (py_sum (or_empty (charge_amounts it))) (\<lambda>extras. py_add base extras))"
proof -
  from make_item_InrD [OF assms] obtain q0 q where d:
    "subscript item_json ''quantity'' = Inr q0" "py_int ios q0 = Inr q" "qty it = PyInt q"
    by force
  have "\<forall>r. q0 = PNum (PyFloat (Finite r)) \<longrightarrow> q = (if 0 \<le> r then \<lfloor>r\<rfloor> else \<lceil>r\<rceil>)"
    using d(2) by auto
  moreover have "price_cal it =
        and_then (py_mul (PyInt q) (price it)) (\<lambda>base.
        and_then (py_sum (or_empty (charge_amounts it))) (\<lambda>extras. py_add base extras))"
    by (simp add: price_cal_def d(3))
  ultimately show ?thesis using d by blast
qed

theorem make_item_qty_witness:
  "make_item (\<lambda>s. None) (\<lambda>s. None)
     (PDict [(''name'', PStr ''Widget''), (''quantity'', PNum (PyFloat (Finite (5 / 2)))),
             (''price'', PNum (PyFloat (Finite 10)))])
   = Inr \<lparr>name = PStr ''Widget'', qty = PyInt 2, price = PyFloat (Finite 10),
          charge_types = Some [], charge_amounts = Some []\<rparr>
   \<and> price_cal \<lparr>name = PStr ''Widget'', qty = PyInt 2, price = PyFloat (Finite 10),
          charge_types = Some [], charge_amounts = Some []\<rparr> = Inr (PyFloat (Finite 20))"
proof -
  have e: "make_item (\<lambda>s. None) (\<lambda>s. None)
     (PDict [(''name'', PStr ''Widget''), (''quantity'', PNum (PyFloat (Finite (5 / 2)))),
             (''price'', PNum (PyFloat (Finite 10)))])
   = Inr \<lparr>name = PStr ''Widget'', qty = PyInt 2, price = PyFloat (Finite 10),
          charge_types = Some [], charge_amounts = Some []\<rparr>"
    by (simp add: make_item_def)
  have r: "round_double 2 = Finite 2" "round_double 20 = Finite 20"
    using round_double_of_int [of 2] round_double_of_int [of 20] by simp_all
  from make_item_qty [OF e] e show ?thesis
    by (simp add: py_arith r)
qed

text \<open>
  C10: with \<open>charge_amounts = None\<close> the line total is \<open>qty * price\<close>: the missing
  sequence counts as empty, and nothing is raised on its account (the product raises
  \<^verbatim>\<open>OverflowError\<close> when an \<^verbatim>\<open>int\<close> beyond the range of a \<^verbatim>\<open>float\<close> meets a \<^verbatim>\<open>float\<close>, and
  nothing else is ever raised).
\<close>

theorem price_cal_none:
  assumes "charge_amounts it = None"
  shows "price_cal it = py_mul (qty it) (price it)
         \<and> price_cal it = price_cal (it\<lparr>charge_amounts := Some []\<rparr>)
         \<and> (\<forall>e. price_cal it = Inl e \<longrightarrow> e = OverflowError)"
proof -
  have a: "price_cal it = py_mul (qty it) (price it)"
  proof (cases "py_mul (qty it) (price it)")
    case (Inl e)
    then show ?thesis by (simp add: price_cal_def)
  next
    case (Inr r)
    then show ?thesis
      using py_add_zero_right [OF Inr] by (simp add: price_cal_def assms py_sum_def or_empty_def)
  qed
  have b: "price_cal it = price_cal (it\<lparr>charge_amounts := Some []\<rparr>)"
    by (simp add: price_cal_def assms or_empty_def)
  have c: "\<forall>e. py_mul (qty it) (price it) = Inl e \<longrightarrow> e = OverflowError"
    by (cases "qty it"; cases "price it")
      (auto simp: float_op_def float_of_int_def and_then_def split: sum.splits pyfloat.splits)
  from a b c show ?thesis by simp
qed

theorem price_cal_none_witness:
  "charge_amounts \<lparr>name = PStr ''Widget'', qty = PyInt 2, price = PyFloat (Finite 10),
       charge_types = None, charge_amounts = None\<rparr> = None
   \<and> price_cal \<lparr>name = PStr ''Widget'', qty = PyInt 2, price = PyFloat (Finite 10),
       charge_types = None, charge_amounts = None\<rparr> = Inr (PyFloat (Finite 20))"
proof -
  have r2: "round_double 2 = Finite 2" using round_double_of_int [of 2] by simp
  have r20: "round_double 20 = Finite 20" using round_double_of_int [of 20] by simp
  show ?thesis
    using price_cal_none [of "\<lparr>name = PStr ''Widget'', qty = PyInt 2, price = PyFloat (Finite 10),
       charge_types = None, charge_amounts = None\<rparr>"]
    by (simp add: float_op_def float_of_int_def r2 r20)
qed

end
